theory Spec2Isabelle
  imports
    Main
    "HOL-Library.AList"
    "HOL-Library.Sublist"
    "HOL-Library.Char_ord"
    "HOL-Library.List_Lexorder"
begin

section \<open>Values handled by the e2e wait helpers\<close>

text \<open>
  The wait helpers of package \<open>utils\<close> (\<open>VerifyPodsReadyByPrefix\<close>, \<open>isPodReady\<close>,
  \<open>WaitForESOResourceReady\<close>, \<open>WaitForExternalSecretsConfigReady\<close>) read typed pods and
  schema-less custom resources. A custom resource is an \<open>unstructured.Unstructured\<close>: its
  \<open>Object\<close> is a \<open>map[string]interface{}\<close> whose values are again maps, slices, strings,
  numbers, booleans or nil. Floating-point numbers are left out; no helper computes with
  a number.
\<close>

datatype jvalue =
    JNil
  | JBool bool
  | JInt int
  | JStr string
  | JSlice "jvalue list"
  | JMap "(string \<times> jvalue) list"

type_synonym jobject = "(string \<times> jvalue) list"

text \<open>Go's \<open>m[k]\<close> on a \<open>map[string]interface{}\<close>: the nil interface when the key is missing.
  A map is an association list read by its first entry for a key.\<close>

definition index :: "jobject \<Rightarrow> string \<Rightarrow> jvalue" where
  "index m k = (case map_of m k of None \<Rightarrow> JNil | Some v \<Rightarrow> v)"

subsection \<open>The \<open>%v\<close> verb\<close>

text \<open>
  \<open>fmt\<close> prints a nil interface as \<open><nil>\<close>, a string as it is, an integer in decimal,
  a slice as \<open>[a b]\<close> and a map as \<open>map[k:v k:v]\<close> with the keys sorted.
\<close>

definition digit_char :: "nat \<Rightarrow> char" where
  "digit_char n = ''0123456789'' ! n"

fun fmt_nat :: "nat \<Rightarrow> string" where
  "fmt_nat n = (if n < 10 then [digit_char n] else fmt_nat (n div 10) @ [digit_char (n mod 10)])"

declare fmt_nat.simps [simp del]

definition fmt_int :: "int \<Rightarrow> string" where
  "fmt_int i = (if i < 0 then CHR ''-'' # fmt_nat (nat (- i)) else fmt_nat (nat i))"

fun join_space :: "string list \<Rightarrow> string" where
  "join_space [] = []"
| "join_space [s] = s"
| "join_space (s # t # ss) = s @ '' '' @ join_space (t # ss)"

function fmt_v :: "jvalue \<Rightarrow> string" where
  "fmt_v JNil = ''<nil>''"
| "fmt_v (JBool b) = (if b then ''true'' else ''false'')"
| "fmt_v (JInt i) = fmt_int i"
| "fmt_v (JStr s) = s"
| "fmt_v (JSlice xs) = ''['' @ join_space (map fmt_v xs) @ '']''"
| "fmt_v (JMap m) =
     ''map['' @ join_space (map (\<lambda>kv. fst kv @ '':'' @ fmt_v (snd kv))
                              (sort_key fst (AList.clearjunk m))) @ '']''"
  by pat_completeness auto
termination
proof (relation "measure size")
  show "wf (measure size)" by simp
next
  fix xs :: "jvalue list" and x
  assume "x \<in> set xs"
  then show "(x, JSlice xs) \<in> measure size"
    by (induction xs) auto
next
  fix m :: "(string \<times> jvalue) list" and kv
  assume "kv \<in> set (sort_key fst (AList.clearjunk m))"
  moreover have "set (AList.clearjunk al) \<subseteq> set al" for al :: "(string \<times> jvalue) list"
    by (induction al rule: AList.clearjunk.induct) (auto simp: AList.delete_eq)
  ultimately have "kv \<in> set m"
    by fastforce
  then show "(snd kv, JMap m) \<in> measure size"
    by (induction m) auto
qed

subsection \<open>Errors\<close>

text \<open>
  Errors are values. \<open>Canceled\<close> and \<open>DeadlineExceeded\<close> are the two errors of package
  \<open>context\<close>; \<open>ApiError\<close> is whatever a \<open>Get\<close> or \<open>List\<close> of the cluster client returns
  (not found, connection refused, ...); \<open>AccessorError\<close> is the error of the
  \<open>unstructured\<close> accessors, carrying the value of the unexpected type; \<open>Errorf\<close> is an
  error built by \<open>fmt.Errorf\<close> from a finished message and \<open>Wrapf\<close> one built with
  \<open>%w\<close>: the message before the wrapped error, and the wrapped error.
\<close>

datatype error =
    Canceled
  | DeadlineExceeded
  | ApiError string
  | AccessorError jvalue
  | Errorf string
  | Wrapf string error

subsection \<open>Pods\<close>

record PodCondition =
  Type :: string
  Status :: string

record Pod =
  Name :: string
  Phase :: string
  Conditions :: "PodCondition list"

definition PodRunning :: string where
  "PodRunning = ''Running''"

definition ConditionTrue :: string where
  "ConditionTrue = ''True''"

section \<open>Collaborators the helpers call\<close>

subsection \<open>The accessors of \<open>unstructured\<close>\<close>

text \<open>
  Modelled from the spec: \<open>unstructured.NestedFieldNoCopy\<close> (vendored from
  k8s.io/apimachinery, not among the sources) walks the path of section 4.1's Condition
  Extractor: not found when a sub-document or field on the path is absent, an error
  only when the document has the wrong shape (a value on the path that is not a map).
\<close>

fun NestedFieldNoCopy :: "jvalue \<Rightarrow> string list \<Rightarrow> jvalue \<times> bool \<times> error option" where
  "NestedFieldNoCopy val [] = (val, True, None)"
| "NestedFieldNoCopy JNil (field # rest) = (JNil, False, None)"
| "NestedFieldNoCopy (JMap m) (field # rest) =
     (case map_of m field of
        None \<Rightarrow> (JNil, False, None)
      | Some v \<Rightarrow> NestedFieldNoCopy v rest)"
| "NestedFieldNoCopy val (field # rest) = (JNil, False, Some (AccessorError val))"

text \<open>
  Modelled from the spec: \<open>unstructured.NestedSlice\<close> (vendored from k8s.io/apimachinery,
  not among the sources) is the Condition Extractor of section 4.1: the conditions and
  found; not found when the status sub-document or its conditions field is absent; an
  error when the document is malformed (the value at the path is not a slice).
\<close>

definition NestedSlice :: "jobject \<Rightarrow> string list \<Rightarrow> jvalue list \<times> bool \<times> error option" where
  "NestedSlice obj path =
     (case NestedFieldNoCopy (JMap obj) path of
        (val, found, err) \<Rightarrow>
          if \<not> found \<or> err \<noteq> None then ([], found, err)
          else (case val of
                  JSlice xs \<Rightarrow> (xs, True, None)
                | _ \<Rightarrow> ([], False, Some (AccessorError val))))"

subsection \<open>The poller\<close>

text \<open>
  \<open>wait.PollUntilContextTimeout\<close> and \<open>wait.Interrupted\<close> are vendored from
  k8s.io/apimachinery and not among the sources; they are the Poller of section 4.2.
  Time is counted in nanoseconds from the call, as \<open>time.Duration\<close> does. A probe takes
  no time. The caller's context is the time at which the caller cancels it, if ever.
\<close>

type_synonym Duration = int

definition Second :: Duration where
  "Second = 1000000000"

definition Minute :: Duration where
  "Minute = 60 * Second"

text \<open>
  Modelled from the spec: the loop of the Poller (section 4.2) over the probe calls that
  happen before the context is done, each with its input (the number of the call, or
  what the cluster returns at it). The loop ends when the probe reports done (nil),
  when the probe returns an error (that error), or when the context is done (the
  context's error).
\<close>

fun loopConditionUntilContext ::
  "error \<Rightarrow> ('i \<Rightarrow> 's \<Rightarrow> (bool \<times> error option) \<times> 's) \<Rightarrow> 'i list \<Rightarrow> 's \<Rightarrow> error option \<times> 's" where
  "loopConditionUntilContext ctxErr condition [] s = (Some ctxErr, s)"
| "loopConditionUntilContext ctxErr condition (i # is) s =
     (case condition i s of
        ((ok, err), s') \<Rightarrow>
          if err \<noteq> None \<or> ok then (err, s')
          else loopConditionUntilContext ctxErr condition is s')"

text \<open>
  Modelled from the spec: the time at which the context of the wait is done (section
  4.2): when the timeout has elapsed or the caller has cancelled, whichever is first.
\<close>

definition ctxDone :: "Duration option \<Rightarrow> Duration \<Rightarrow> Duration" where
  "ctxDone ctx timeout = (case ctx of None \<Rightarrow> timeout | Some c \<Rightarrow> min c timeout)"

text \<open>
  Modelled from the spec: the error of the context once it is done (sections 4.2 and
  7): the distinguished \<open>DeadlineExceeded\<close> when the timeout elapsed, the cancellation
  cause \<open>Canceled\<close> when the caller cancelled before that.
\<close>

definition ctxErr :: "Duration option \<Rightarrow> Duration \<Rightarrow> error" where
  "ctxErr ctx timeout =
     (case ctx of
        None \<Rightarrow> DeadlineExceeded
      | Some c \<Rightarrow> if c < timeout then Canceled else DeadlineExceeded)"

text \<open>
  Modelled from the spec: the number of probe calls (section 4.2): the immediate one
  when \<open>immediate\<close> is set, and one at each \<open>interval\<close> thereafter (at \<open>interval\<close>,
  \<open>2 * interval\<close>, ...) that comes before the context is done. Every call site passes a
  positive interval.
\<close>

definition pollCalls :: "Duration option \<Rightarrow> Duration \<Rightarrow> Duration \<Rightarrow> bool \<Rightarrow> nat" where
  "pollCalls ctx interval timeout immediate =
     (if immediate then 1 else 0) + nat ((ctxDone ctx timeout - 1) div interval)"

text \<open>
  Modelled from the spec: \<open>wait.PollUntilContextTimeout\<close> (vendored, not among the
  sources), the Poller of section 4.2. The probe is given the number of its call and the
  state it closes over.
\<close>

definition PollUntilContextTimeout ::
  "Duration option \<Rightarrow> Duration \<Rightarrow> Duration \<Rightarrow> bool \<Rightarrow>
   (nat \<Rightarrow> 's \<Rightarrow> (bool \<times> error option) \<times> 's) \<Rightarrow> 's \<Rightarrow> error option \<times> 's" where
  "PollUntilContextTimeout ctx interval timeout immediate condition s =
     loopConditionUntilContext (ctxErr ctx timeout) condition
       [0 ..< pollCalls ctx interval timeout immediate] s"

text \<open>
  Modelled from the spec: \<open>wait.Interrupted\<close> (vendored, not among the sources) tells
  the Deadline and Cancellation outcomes of section 7 from an error of the probe's own.
  By the library's contract it holds when the loop ended for any reason besides the
  probe reporting done or returning an error: the error is, or wraps, one of the two
  context errors \<open>Canceled\<close> and \<open>DeadlineExceeded\<close>.
\<close>

fun Interrupted :: "error \<Rightarrow> bool" where
  "Interrupted Canceled = True"
| "Interrupted DeadlineExceeded = True"
| "Interrupted (Wrapf msg e) = Interrupted e"
| "Interrupted e = False"

section \<open>The wait helpers\<close>

subsection \<open>\<open>isPodReady\<close> and \<open>VerifyPodsReadyByPrefix\<close>\<close>

definition HasPrefix :: "string \<Rightarrow> string \<Rightarrow> bool" where
  "HasPrefix s p = prefix p s"

text \<open>Go's \<open>m[k]\<close> on a \<open>map[string]bool\<close>: false when the key is missing.\<close>

definition isPodReady :: "Pod \<Rightarrow> bool" where
  "isPodReady pod =
     (let ready = fold (\<lambda>cond ready.
                          if ready (Type cond) \<noteq> None \<and> Status cond = ConditionTrue
                          then ready(Type cond \<mapsto> True) else ready)
                       (Conditions pod)
                       [''Ready'' \<mapsto> False, ''ContainersReady'' \<mapsto> False]
      in ready ''Ready'' = Some True \<and> ready ''ContainersReady'' = Some True)"

text \<open>
  The map \<open>matched\<close>, from pod name to pod, as an association list with one entry for a
  name. Each iteration of a \<open>range\<close> loop has its own \<open>pod\<close> variable (Go 1.22 and later),
  so \<open>&pod\<close> is that pod.
\<close>

definition matchPods :: "string list \<Rightarrow> Pod list \<Rightarrow> (string \<times> Pod) list" where
  "matchPods pfxs items =
     fold (\<lambda>pod matched.
             fold (\<lambda>p matched.
                     if HasPrefix (Name pod) p then AList.update (Name pod) pod matched
                     else matched)
                  pfxs matched)
          items []"

text \<open>The probe of \<open>VerifyPodsReadyByPrefix\<close>, given what \<open>List\<close> returned.\<close>

definition verifyPodsCondition :: "string list \<Rightarrow> error + Pod list \<Rightarrow> bool \<times> error option" where
  "verifyPodsCondition pfxs listed =
     (case listed of
        Inl err \<Rightarrow> (False, Some err)
      | Inr items \<Rightarrow>
          (let matched = matchPods pfxs items in
           if length matched \<noteq> length pfxs then (False, None)
           else if list_ex (\<lambda>(n, pod). Phase pod \<noteq> PodRunning \<or> \<not> isPodReady pod) matched
           then (False, None)
           else (True, None)))"

text \<open>\<open>clientset namespace k\<close> is what the \<open>k\<close>-th \<open>List\<close> of the pods of the namespace
  returns.\<close>

definition VerifyPodsReadyByPrefix ::
  "Duration option \<Rightarrow> (string \<Rightarrow> nat \<Rightarrow> error + Pod list) \<Rightarrow> string \<Rightarrow> string list \<Rightarrow> error option" where
  "VerifyPodsReadyByPrefix ctx clientset namespace pfxs =
     fst (PollUntilContextTimeout ctx (5 * Second) (2 * Minute) True
            (\<lambda>k s. (verifyPodsCondition pfxs (clientset namespace k), s)) ())"

subsection \<open>\<open>WaitForESOResourceReady\<close>\<close>

text \<open>The loop over the conditions; the state is what has been printed so far.\<close>

fun esoConditionsLoop :: "string \<Rightarrow> string \<Rightarrow> jvalue list \<Rightarrow> string list \<Rightarrow> bool \<times> string list" where
  "esoConditionsLoop namespace name [] out = (False, out)"
| "esoConditionsLoop namespace name (JMap cond # conds) out =
     (let t = index cond ''type'';
          s = index cond ''status'';
          msg = index cond ''message''
      in if t = JStr ''Ready'' then
           (if s = JStr ''True'' then (True, out)
            else esoConditionsLoop namespace name conds
                   (out @ [''resource '' @ namespace @ ''/'' @ name @ '' not ready: '' @ fmt_v msg
                           @ [CHR 0x0A]]))
         else esoConditionsLoop namespace name conds out)"
| "esoConditionsLoop namespace name (c # conds) out = esoConditionsLoop namespace name conds out"

definition esoCondition ::
  "string \<Rightarrow> string \<Rightarrow> error + jobject \<Rightarrow> string list \<Rightarrow> (bool \<times> error option) \<times> string list" where
  "esoCondition namespace name got out =
     (case got of
        Inl err \<Rightarrow> ((False, None), out)
      | Inr u \<Rightarrow>
          (case NestedSlice u [''status'', ''conditions''] of
             (conds, found, err) \<Rightarrow>
               if err \<noteq> None \<or> \<not> found then ((False, None), out)
               else (case esoConditionsLoop namespace name conds out of
                       (done, out') \<Rightarrow> ((done, None), out'))))"

text \<open>\<open>client k\<close> is what the \<open>k\<close>-th \<open>Get\<close> of the resource (the one that \<open>gvr\<close>,
  \<open>namespace\<close> and \<open>name\<close> address) returns. The result is the returned error and the
  lines printed.\<close>

definition WaitForESOResourceReady ::
  "Duration option \<Rightarrow> (nat \<Rightarrow> error + jobject) \<Rightarrow> string \<Rightarrow> string \<Rightarrow> Duration \<Rightarrow>
   error option \<times> string list" where
  "WaitForESOResourceReady ctx client namespace name timeout =
     PollUntilContextTimeout ctx (5 * Second) timeout True
       (\<lambda>k out. esoCondition namespace name (client k) out) []"

subsection \<open>\<open>WaitForExternalSecretsConfigReady\<close>\<close>

text \<open>The two variables the probe closes over: \<open>lastReadyCondition\<close> and
  \<open>lastDegradedCondition\<close>, \<open>None\<close> for a nil map.\<close>

type_synonym escState = "jobject option \<times> jobject option"

text \<open>The body of the loop over the conditions.\<close>

fun escRecord :: "jvalue \<Rightarrow> escState \<Rightarrow> escState" where
  "escRecord (JMap cond) (lastReady, lastDegraded) =
     (let condType = (case index cond ''type'' of JStr s \<Rightarrow> s | _ \<Rightarrow> '''')
      in if condType = ''Ready'' then (Some cond, lastDegraded)
         else if condType = ''Degraded'' then (lastReady, Some cond)
         else (lastReady, lastDegraded))"
| "escRecord c st = st"

definition escCondition ::
  "string \<Rightarrow> error + jobject \<Rightarrow> escState \<Rightarrow> (bool \<times> error option) \<times> escState" where
  "escCondition name got st =
     (case got of
        Inl err \<Rightarrow> ((False, None), st)
      | Inr u \<Rightarrow>
          (case NestedSlice u [''status'', ''conditions''] of
             (conds, found, err) \<Rightarrow>
               (case err of
                  Some e \<Rightarrow>
                    ((False, Some (Wrapf ''failed to extract conditions from ExternalSecretsConfig: '' e)), st)
                | None \<Rightarrow>
                    if \<not> found then ((False, None), st)
                    else (case fold escRecord conds st of
                            (Some lastReady, Some lastDegraded) \<Rightarrow>
                              if index lastDegraded ''status'' = JStr ''True''
                              then ((False, Some (Errorf (''ExternalSecretsConfig '' @ name
                                        @ '' is degraded: '' @ fmt_v (index lastDegraded ''message'')))),
                                    (Some lastReady, Some lastDegraded))
                              else ((index lastReady ''status'' = JStr ''True'', None),
                                    (Some lastReady, Some lastDegraded))
                          | st' \<Rightarrow> ((False, None), st')))))"

text \<open>The call of the poller, with the final values of the two variables.\<close>

definition escPoll ::
  "Duration option \<Rightarrow> (nat \<Rightarrow> error + jobject) \<Rightarrow> string \<Rightarrow> Duration \<Rightarrow> error option \<times> escState" where
  "escPoll ctx client name timeout =
     PollUntilContextTimeout ctx (5 * Second) timeout True
       (\<lambda>k st. escCondition name (client k) st) (None, None)"

definition WaitForExternalSecretsConfigReady ::
  "Duration option \<Rightarrow> (nat \<Rightarrow> error + jobject) \<Rightarrow> string \<Rightarrow> Duration \<Rightarrow> error option" where
  "WaitForExternalSecretsConfigReady ctx client name timeout =
     (case escPoll ctx client name timeout of
        (err, (lastReadyCondition, lastDegradedCondition)) \<Rightarrow>
          (case err of
             None \<Rightarrow> None
           | Some e \<Rightarrow>
               if Interrupted e then
                 (let readyStatus =
                        (case lastReadyCondition of
                           None \<Rightarrow> ''not set''
                         | Some c \<Rightarrow> fmt_v (index c ''status'') @ '' (reason: ''
                                     @ fmt_v (index c ''reason'') @ '', message: ''
                                     @ fmt_v (index c ''message'') @ '')'');
                      degradedStatus =
                        (case lastDegradedCondition of
                           None \<Rightarrow> ''not set''
                         | Some c \<Rightarrow> fmt_v (index c ''status'') @ '' (reason: ''
                                     @ fmt_v (index c ''reason'') @ '', message: ''
                                     @ fmt_v (index c ''message'') @ '')'')
                  in Some (Errorf (''timeout waiting for ExternalSecretsConfig '' @ name
                                   @ '' to be ready: Ready='' @ readyStatus
                                   @ '', Degraded='' @ degradedStatus)))
               else Some e))"

section \<open>Notions used to state the properties\<close>

text \<open>The state a probe has left behind after being called on the given inputs in turn.\<close>

definition pollState :: "('i \<Rightarrow> 's \<Rightarrow> (bool \<times> error option) \<times> 's) \<Rightarrow> 'i list \<Rightarrow> 's \<Rightarrow> 's" where
  "pollState condition inputs s = fold (\<lambda>i s. snd (condition i s)) inputs s"

text \<open>
  The conditions a fetched snapshot shows: those of \<open>status.conditions\<close>, none when the
  fetch failed, the field is absent or the document is malformed.
\<close>

definition conditionsOf :: "error + jobject \<Rightarrow> jvalue list" where
  "conditionsOf got =
     (case got of
        Inl err \<Rightarrow> []
      | Inr u \<Rightarrow>
          (case NestedSlice u [''status'', ''conditions''] of
             (conds, found, err) \<Rightarrow> if found \<and> err = None then conds else []))"

text \<open>All conditions observed by the first \<open>k\<close> fetches, in the order observed.\<close>

definition observed :: "(nat \<Rightarrow> error + jobject) \<Rightarrow> nat \<Rightarrow> jvalue list" where
  "observed client k = concat (map (\<lambda>j. conditionsOf (client j)) [0 ..< k])"

text \<open>A condition entry of the given type: a string-keyed map whose \<open>type\<close> is that string.\<close>

definition ofType :: "string \<Rightarrow> jvalue \<Rightarrow> bool" where
  "ofType ty c = (case c of JMap m \<Rightarrow> index m ''type'' = JStr ty | _ \<Rightarrow> False)"

text \<open>The last observed condition of a type (section 3 of the specification: the waiter
  retains only the last observed condition per type), \<open>None\<close> when none was observed.\<close>

definition lastOfType :: "string \<Rightarrow> jvalue list \<Rightarrow> jobject option" where
  "lastOfType ty conds =
     (case rev (filter (ofType ty) conds) of
        JMap m # cs \<Rightarrow> Some m
      | _ \<Rightarrow> None)"

definition lastObserved :: "string \<Rightarrow> (nat \<Rightarrow> error + jobject) \<Rightarrow> nat \<Rightarrow> jobject option" where
  "lastObserved ty client k = lastOfType ty (observed client k)"

text \<open>A condition entry of the expected shape: a string-keyed map.\<close>

definition isMapEntry :: "jvalue \<Rightarrow> bool" where
  "isMapEntry c = (case c of JMap cond \<Rightarrow> True | _ \<Rightarrow> False)"

text \<open>The fetched snapshot shows a \<open>Ready\<close> condition with status \<open>True\<close>.\<close>

definition showsReadyTrue :: "error + jobject \<Rightarrow> bool" where
  "showsReadyTrue got =
     list_ex (\<lambda>c. case c of
                     JMap cond \<Rightarrow> index cond ''type'' = JStr ''Ready''
                                  \<and> index cond ''status'' = JStr ''True''
                   | _ \<Rightarrow> False)
             (conditionsOf got)"

subsection \<open>Snapshots of the example scenarios\<close>

definition conditionEntry :: "string \<Rightarrow> string \<Rightarrow> string \<Rightarrow> jvalue" where
  "conditionEntry t s msg = JMap [(''type'', JStr t), (''status'', JStr s), (''message'', JStr msg)]"

definition withConditions :: "jvalue list \<Rightarrow> jobject" where
  "withConditions conds =
     [(''kind'', JStr ''ExternalSecretsConfig''), (''status'', JMap [(''conditions'', JSlice conds)])]"

text \<open>No conditions, then \<open>{Ready: Unknown}\<close>, then \<open>{Ready: False, Degraded: False}\<close>, then
  \<open>{Ready: True, Degraded: False}\<close> from the fourth fetch on.\<close>

definition converging :: "nat \<Rightarrow> error + jobject" where
  "converging k =
     [Inr [(''kind'', JStr ''ExternalSecretsConfig'')],
      Inr (withConditions [conditionEntry ''Ready'' ''Unknown'' ''starting'']),
      Inr (withConditions [conditionEntry ''Ready'' ''False'' ''deploying'',
                           conditionEntry ''Degraded'' ''False'' ''healthy'']),
      Inr (withConditions [conditionEntry ''Ready'' ''True'' ''reconciled'',
                           conditionEntry ''Degraded'' ''False'' ''healthy''])] ! min k 3"

text \<open>\<open>{Ready: True}\<close>, then \<open>{Ready: True, Degraded: True}\<close>.\<close>

definition readyThenDegraded :: "nat \<Rightarrow> error + jobject" where
  "readyThenDegraded k =
     (if k = 0 then Inr (withConditions [conditionEntry ''Ready'' ''True'' ''reconciled''])
      else Inr (withConditions [conditionEntry ''Ready'' ''True'' ''reconciled'',
                                conditionEntry ''Degraded'' ''True'' ''operand failed'']))"

text \<open>A pod that is running with both conditions true.\<close>

definition runningPod :: "string \<Rightarrow> Pod" where
  "runningPod n =
     \<lparr>Name = n, Phase = ''Running'',
      Conditions = [\<lparr>Type = ''Ready'', Status = ''True''\<rparr>,
                    \<lparr>Type = ''ContainersReady'', Status = ''True''\<rparr>]\<rparr>"

text \<open>A resource that is not found at the first three fetches and ready from the fourth
  on; the same with another error.\<close>

definition notFoundThenReady :: "nat \<Rightarrow> error + jobject" where
  "notFoundThenReady k =
     (if k < 3 then Inl (ApiError ''not found'')
      else Inr (withConditions [conditionEntry ''Ready'' ''True'' ''store validated'']))"

definition refusedThenReady :: "nat \<Rightarrow> error + jobject" where
  "refusedThenReady k =
     (if k < 3 then Inl (ApiError ''connection refused'')
      else Inr (withConditions [conditionEntry ''Ready'' ''True'' ''store validated'']))"

text \<open>A namespace with no pod at the first \<open>List\<close>, a failing second \<open>List\<close>, and a ready
  pod afterwards.\<close>

definition listRefusedOnce :: "string \<Rightarrow> nat \<Rightarrow> error + Pod list" where
  "listRefusedOnce namespace k =
     (if k = 0 then Inr []
      else if k = 1 then Inl (ApiError ''connection refused'')
      else Inr [runningPod ''a-1''])"

section \<open>The poller's loop\<close>

lemma pollState_Nil [simp]: "pollState c [] s = s"
  by (simp add: pollState_def)

lemma pollState_Cons [simp]: "pollState c (i # is) s = pollState c is (snd (c i s))"
  by (simp add: pollState_def)

text \<open>While every call reports "not done, no error", the loop goes on to the end of the
  inputs and returns the context's error.\<close>

lemma loop_all_pending:
  "(\<And>j. j < length is \<Longrightarrow> fst (c (is ! j) (pollState c (take j is) s)) = (False, None))
   \<Longrightarrow> loopConditionUntilContext e c is s = (Some e, pollState c is s)"
proof (induction "is" arbitrary: s)
  case Nil
  then show ?case by simp
next
  case (Cons i "is")
  have h0: "fst (c i s) = (False, None)"
    using Cons.prems [of 0] by simp
  have "loopConditionUntilContext e c is (snd (c i s)) = (Some e, pollState c is (snd (c i s)))"
  proof (rule Cons.IH)
    fix j assume "j < length is"
    then show "fst (c (is ! j) (pollState c (take j is) (snd (c i s)))) = (False, None)"
      using Cons.prems [of "Suc j"] by simp
  qed
  with h0 show ?case
    by (simp add: case_prod_beta)
qed

text \<open>The loop ends at the first call that reports done or returns an error.\<close>

lemma loop_stops_at:
  "k < length is
   \<Longrightarrow> (\<And>j. j < k \<Longrightarrow> fst (c (is ! j) (pollState c (take j is) s)) = (False, None))
   \<Longrightarrow> fst (c (is ! k) (pollState c (take k is) s)) = (ok, err)
   \<Longrightarrow> err \<noteq> None \<or> ok
   \<Longrightarrow> loopConditionUntilContext e c is s = (err, pollState c (take (Suc k) is) s)"
proof (induction "is" arbitrary: s k)
  case Nil
  then show ?case by simp
next
  case (Cons i "is")
  show ?case
  proof (cases k)
    case 0
    with Cons.prems show ?thesis
      by (auto simp: case_prod_beta)
  next
    case (Suc k')
    have h0: "fst (c i s) = (False, None)"
      using Cons.prems(2) [of 0] Suc by simp
    have "loopConditionUntilContext e c is (snd (c i s))
            = (err, pollState c (take (Suc k') is) (snd (c i s)))"
    proof (rule Cons.IH)
      show "k' < length is" using Cons.prems(1) Suc by simp
      show "fst (c (is ! j) (pollState c (take j is) (snd (c i s)))) = (False, None)"
        if "j < k'" for j
        using Cons.prems(2) [of "Suc j"] that Suc by simp
      show "fst (c (is ! k') (pollState c (take k' is) (snd (c i s)))) = (ok, err)"
        using Cons.prems(3) Suc by simp
      show "err \<noteq> None \<or> ok" by (rule Cons.prems(4))
    qed
    with h0 Suc show ?thesis
      by (simp add: case_prod_beta)
  qed
qed

lemma loop_cases:
  "(loopConditionUntilContext e c is s = (Some e, pollState c is s)
      \<and> (\<forall>j<length is. fst (c (is ! j) (pollState c (take j is) s)) = (False, None)))
   \<or> (\<exists>k<length is. (\<forall>j<k. fst (c (is ! j) (pollState c (take j is) s)) = (False, None))
         \<and> fst (c (is ! k) (pollState c (take k is) s)) \<noteq> (False, None)
         \<and> loopConditionUntilContext e c is s
             = (snd (fst (c (is ! k) (pollState c (take k is) s))), pollState c (take (Suc k) is) s))"
proof (cases "\<forall>j<length is. fst (c (is ! j) (pollState c (take j is) s)) = (False, None)")
  case True
  then show ?thesis using loop_all_pending [of "is" c s e] by blast
next
  case False
  define P where "P j \<longleftrightarrow> j < length is \<and> fst (c (is ! j) (pollState c (take j is) s)) \<noteq> (False, None)"
    for j
  from False have "\<exists>j. P j" by (auto simp: P_def)
  then obtain k where k: "P k" "\<And>j. j < k \<Longrightarrow> \<not> P j"
    using exists_least_iff [of P] by blast
  obtain ok err where oe: "fst (c (is ! k) (pollState c (take k is) s)) = (ok, err)"
    by (cases "fst (c (is ! k) (pollState c (take k is) s))")
  have kl: "k < length is" using k(1) by (simp add: P_def)
  have pend: "fst (c (is ! j) (pollState c (take j is) s)) = (False, None)" if "j < k" for j
    using k(2) [OF that] that kl by (simp add: P_def)
  have stop: "err \<noteq> None \<or> ok"
    using k(1) oe by (auto simp: P_def)
  have "loopConditionUntilContext e c is s = (err, pollState c (take (Suc k) is) s)"
    by (rule loop_stops_at [where ok = ok]) (use kl pend oe stop in auto)
  with kl pend oe k(1) show ?thesis
    by (intro disjI2 exI [of _ k]) (auto simp: P_def)
qed

section \<open>The number of probe calls\<close>

lemma le_div_int:
  fixes I k a :: int
  assumes "0 < I"
  shows "k \<le> a div I \<longleftrightarrow> k * I \<le> a"
proof
  assume "k \<le> a div I"
  then have "k * I \<le> (a div I) * I"
    using assms by (simp add: mult_right_mono)
  also have "\<dots> = a - a mod I"
    by (simp add: minus_mod_eq_div_mult)
  also have "\<dots> \<le> a"
    using assms by simp
  finally show "k * I \<le> a" .
next
  assume "k * I \<le> a"
  then have "(k * I) div I \<le> a div I"
    using assms by (rule zdiv_mono1)
  then show "k \<le> a div I"
    using assms by simp
qed

text \<open>With \<open>immediate\<close> set, call \<open>k\<close> happens when it is the first one or when its time,
  \<open>k * interval\<close>, is before the context is done.\<close>

lemma pollCalls_immediate:
  assumes "0 < interval"
  shows "k < pollCalls ctx interval timeout True
           \<longleftrightarrow> k = 0 \<or> int k * interval < ctxDone ctx timeout"
proof (cases k)
  case 0
  then show ?thesis by (simp add: pollCalls_def)
next
  case (Suc k')
  have "k < pollCalls ctx interval timeout True
          \<longleftrightarrow> int k \<le> (ctxDone ctx timeout - 1) div interval"
    using Suc by (auto simp: pollCalls_def)
  also have "\<dots> \<longleftrightarrow> int k * interval \<le> ctxDone ctx timeout - 1"
    using assms by (rule le_div_int)
  finally show ?thesis using Suc by auto
qed

section \<open>The last observed conditions\<close>

lemma lastOfType_Nil [simp]: "lastOfType ty [] = None"
  by (simp add: lastOfType_def)

lemma lastOfType_snoc:
  "lastOfType ty (cs @ [c]) =
     (case c of JMap m \<Rightarrow> if index m ''type'' = JStr ty then Some m else lastOfType ty cs
              | _ \<Rightarrow> lastOfType ty cs)"
  by (cases c) (simp_all add: lastOfType_def ofType_def)

lemma lastOfType_append:
  "lastOfType ty (xs @ ys) = (case lastOfType ty ys of None \<Rightarrow> lastOfType ty xs | Some m \<Rightarrow> Some m)"
proof (induction ys rule: rev_induct)
  case Nil
  then show ?case by simp
next
  case (snoc y ys)
  have "lastOfType ty (xs @ ys @ [y]) = lastOfType ty ((xs @ ys) @ [y])" by simp
  also have "\<dots> = (case y of JMap m \<Rightarrow> if index m ''type'' = JStr ty then Some m
                                         else lastOfType ty (xs @ ys)
                              | _ \<Rightarrow> lastOfType ty (xs @ ys))"
    by (rule lastOfType_snoc)
  finally show ?case
    using snoc.IH by (simp add: lastOfType_snoc split: jvalue.splits option.splits)
qed

lemma lastOfType_SomeD:
  "lastOfType ty cs = Some m \<Longrightarrow> JMap m \<in> set cs \<and> index m ''type'' = JStr ty"
proof (induction cs rule: rev_induct)
  case Nil
  then show ?case by simp
next
  case (snoc c cs)
  then show ?case
    by (auto simp: lastOfType_snoc split: jvalue.splits if_splits)
qed

text \<open>The loop over the conditions leaves in each variable the last entry of its type.\<close>

lemma escRecord_last:
  "escRecord c (r, d) =
     (case lastOfType ''Ready'' [c] of None \<Rightarrow> r | Some m \<Rightarrow> Some m,
      case lastOfType ''Degraded'' [c] of None \<Rightarrow> d | Some m \<Rightarrow> Some m)"
  by (cases c) (auto simp: lastOfType_def ofType_def Let_def split: jvalue.splits)

lemma fold_escRecord:
  "fold escRecord cs (r, d) =
     (case lastOfType ''Ready'' cs of None \<Rightarrow> r | Some m \<Rightarrow> Some m,
      case lastOfType ''Degraded'' cs of None \<Rightarrow> d | Some m \<Rightarrow> Some m)"
proof (induction cs rule: rev_induct)
  case Nil
  then show ?case by simp
next
  case (snoc c cs)
  show ?case
    by (simp add: snoc.IH escRecord_last lastOfType_append [of _ cs "[c]"] split: option.splits)
qed

lemma escCondition_state:
  "snd (escCondition name got st) = fold escRecord (conditionsOf got) st"
  by (auto simp: escCondition_def conditionsOf_def split: sum.splits prod.splits option.splits)

lemma observed_Suc: "observed client (Suc k) = observed client k @ conditionsOf (client k)"
  by (simp add: observed_def)

lemma esc_pollState:
  "pollState (\<lambda>j. escCondition name (client j)) [0 ..< k] st = fold escRecord (observed client k) st"
proof (induction k)
  case 0
  then show ?case by (simp add: observed_def)
next
  case (Suc k)
  then show ?case
    by (simp add: pollState_def observed_Suc escCondition_state)
qed

text \<open>Before call \<open>k\<close> of the probe, the two variables hold the last \<open>Ready\<close> and the last
  \<open>Degraded\<close> condition observed by the calls before.\<close>

lemma esc_state_at:
  "pollState (\<lambda>j. escCondition name (client j)) [0 ..< k] (None, None)
     = (lastObserved ''Ready'' client k, lastObserved ''Degraded'' client k)"
  by (simp add: esc_pollState fold_escRecord lastObserved_def split: option.splits)

section \<open>The dual-condition wait\<close>

lemma NestedFieldNoCopy_error:
  "NestedFieldNoCopy v p = (x, found, Some e) \<Longrightarrow> \<exists>w. e = AccessorError w"
  by (induction v p rule: NestedFieldNoCopy.induct) (auto split: option.splits)

lemma NestedSlice_error:
  "NestedSlice u p = (conds, found, Some e) \<Longrightarrow> \<exists>w. e = AccessorError w"
  unfolding NestedSlice_def
  by (auto split: prod.splits if_splits jvalue.splits dest: NestedFieldNoCopy_error)

text \<open>An error of the probe is one of its own, never a context error.\<close>

lemma escCondition_error:
  "fst (escCondition name got st) = (ok, Some e) \<Longrightarrow> \<not> Interrupted e \<and> \<not> ok"
  by (auto simp: escCondition_def split: sum.splits prod.splits option.splits if_splits
           dest: NestedSlice_error)

lemma escCondition_done:
  assumes "fst (escCondition name got st) = (True, err)"
  shows "\<exists>r d. snd (escCondition name got st) = (Some r, Some d)
              \<and> index r ''status'' = JStr ''True'' \<and> index d ''status'' \<noteq> JStr ''True''
              \<and> err = None"
  using assms
  by (auto simp: escCondition_def split: sum.splits prod.splits option.splits if_splits)

lemma escCondition_degraded:
  assumes "got = Inr u" and "NestedSlice u [''status'', ''conditions''] = (conds, True, None)"
    and "fold escRecord conds st = (Some r, Some d)"
    and "index d ''status'' = JStr ''True''"
  shows "escCondition name got st
           = ((False, Some (Errorf (''ExternalSecretsConfig '' @ name @ '' is degraded: ''
                                    @ fmt_v (index d ''message'')))), (Some r, Some d))"
  using assms by (simp add: escCondition_def)

lemma escPoll_unfold:
  "escPoll ctx client name timeout =
     loopConditionUntilContext (ctxErr ctx timeout) (\<lambda>j. escCondition name (client j))
       [0 ..< pollCalls ctx (5 * Second) timeout True] (None, None)"
  by (simp add: escPoll_def PollUntilContextTimeout_def)

text \<open>The outcome of the poll: either every call keeps polling and the context's error comes back,
  or the first call that does not keep polling decides.\<close>

lemma escPoll_cases:
  fixes ctx client name timeout
  defines "n \<equiv> pollCalls ctx (5 * Second) timeout True"
  defines "L \<equiv> \<lambda>k. (lastObserved ''Ready'' client k, lastObserved ''Degraded'' client k)"
  shows "(escPoll ctx client name timeout = (Some (ctxErr ctx timeout), L n)
          \<and> (\<forall>j<n. fst (escCondition name (client j) (L j)) = (False, None)))
       \<or> (\<exists>k<n. (\<forall>j<k. fst (escCondition name (client j) (L j)) = (False, None))
             \<and> fst (escCondition name (client k) (L k)) \<noteq> (False, None)
             \<and> escPoll ctx client name timeout
                = (snd (fst (escCondition name (client k) (L k))), L (Suc k)))"
proof -
  let ?c = "\<lambda>j. escCondition name (client j)"
  have st: "pollState ?c (take j [0 ..< n]) (None, None) = L j" if "j \<le> n" for j
    using that by (simp add: L_def esc_state_at)
  have nth: "[0 ..< n] ! j = j" if "j < n" for j
    using that by simp
  from loop_cases [of "ctxErr ctx timeout" ?c "[0 ..< n]" "(None, None)"]
  show ?thesis
  proof
    assume a: "loopConditionUntilContext (ctxErr ctx timeout) ?c [0 ..< n] (None, None)
                 = (Some (ctxErr ctx timeout), pollState ?c [0 ..< n] (None, None))
               \<and> (\<forall>j<length [0 ..< n]. fst (?c ([0 ..< n] ! j) (pollState ?c (take j [0 ..< n]) (None, None)))
                     = (False, None))"
    have "pollState ?c [0 ..< n] (None, None) = L n"
      using st [of n] by simp
    moreover have "\<forall>j<n. fst (escCondition name (client j) (L j)) = (False, None)"
      using a st nth by auto
    ultimately show ?thesis
      using a by (auto simp: escPoll_unfold n_def)
  next
    assume "\<exists>k<length [0 ..< n].
              (\<forall>j<k. fst (?c ([0 ..< n] ! j) (pollState ?c (take j [0 ..< n]) (None, None))) = (False, None))
              \<and> fst (?c ([0 ..< n] ! k) (pollState ?c (take k [0 ..< n]) (None, None))) \<noteq> (False, None)
              \<and> loopConditionUntilContext (ctxErr ctx timeout) ?c [0 ..< n] (None, None)
                  = (snd (fst (?c ([0 ..< n] ! k) (pollState ?c (take k [0 ..< n]) (None, None)))),
                     pollState ?c (take (Suc k) [0 ..< n]) (None, None))"
    then obtain k where k: "k < n"
      and pend: "\<forall>j<k. fst (?c ([0 ..< n] ! j) (pollState ?c (take j [0 ..< n]) (None, None))) = (False, None)"
      and stop: "fst (?c ([0 ..< n] ! k) (pollState ?c (take k [0 ..< n]) (None, None))) \<noteq> (False, None)"
      and res: "loopConditionUntilContext (ctxErr ctx timeout) ?c [0 ..< n] (None, None)
                  = (snd (fst (?c ([0 ..< n] ! k) (pollState ?c (take k [0 ..< n]) (None, None)))),
                     pollState ?c (take (Suc k) [0 ..< n]) (None, None))"
      by auto
    have "\<forall>j<k. fst (escCondition name (client j) (L j)) = (False, None)"
      using pend k st nth by auto
    moreover have "fst (escCondition name (client k) (L k)) \<noteq> (False, None)"
      using stop k st [of k] nth by simp
    moreover have "escPoll ctx client name timeout
                = (snd (fst (escCondition name (client k) (L k))), L (Suc k))"
      using res k st [of k] st [of "Suc k"] nth by (simp add: escPoll_unfold n_def)
    ultimately show ?thesis using k by blast
  qed
qed

lemma esc_step:
  "snd (escCondition name (client k) (lastObserved ''Ready'' client k, lastObserved ''Degraded'' client k))
     = (lastObserved ''Ready'' client (Suc k), lastObserved ''Degraded'' client (Suc k))"
  using esc_state_at [of name client k] esc_state_at [of name client "Suc k"]
  by (simp add: pollState_def)

lemma escPoll_stops_at:
  assumes "k < pollCalls ctx (5 * Second) timeout True"
    and "\<forall>j<k. fst (escCondition name (client j)
                      (lastObserved ''Ready'' client j, lastObserved ''Degraded'' client j)) = (False, None)"
    and "fst (escCondition name (client k)
                (lastObserved ''Ready'' client k, lastObserved ''Degraded'' client k)) = (ok, err)"
    and "err \<noteq> None \<or> ok"
  shows "escPoll ctx client name timeout
           = (err, (lastObserved ''Ready'' client (Suc k), lastObserved ''Degraded'' client (Suc k)))"
proof -
  let ?c = "\<lambda>j. escCondition name (client j)"
  let ?n = "pollCalls ctx (5 * Second) timeout True"
  have st: "pollState ?c (take j [0 ..< ?n]) (None, None)
              = (lastObserved ''Ready'' client j, lastObserved ''Degraded'' client j)" if "j \<le> ?n" for j
    using that by (simp add: esc_state_at)
  have "loopConditionUntilContext (ctxErr ctx timeout) ?c [0 ..< ?n] (None, None)
          = (err, pollState ?c (take (Suc k) [0 ..< ?n]) (None, None))"
  proof (rule loop_stops_at [where ok = ok])
    show "k < length [0 ..< ?n]" using assms(1) by simp
    show "fst (?c ([0 ..< ?n] ! j) (pollState ?c (take j [0 ..< ?n]) (None, None))) = (False, None)"
      if "j < k" for j
      using that assms(1,2) st [of j] by simp
    show "fst (?c ([0 ..< ?n] ! k) (pollState ?c (take k [0 ..< ?n]) (None, None))) = (ok, err)"
      using assms(1,3) st [of k] by simp
    show "err \<noteq> None \<or> ok" by (rule assms(4))
  qed
  then show ?thesis
    using st [of "Suc k"] assms(1) by (simp add: escPoll_unfold)
qed

lemma lastObserved_SomeD:
  assumes "lastObserved ty client k = Some m"
  shows "\<exists>j<k. JMap m \<in> set (conditionsOf (client j)) \<and> index m ''type'' = JStr ty"
  using lastOfType_SomeD [of ty "observed client k" m] assms
  by (auto simp: lastObserved_def observed_def)

text \<open>
  Once both conditions have been observed the fail-fast works: when a call of the probe
  is reached, its snapshot shows conditions, \<open>Ready\<close> and \<open>Degraded\<close> have both been
  observed by then (at this call or an earlier one) and the last observed \<open>Degraded\<close> has
  status \<open>True\<close>, the wait ends at that call (the two variables keep what had been
  observed by then) with the error "ExternalSecretsConfig <name> is degraded:
  <message>", whatever the status of \<open>Ready\<close> and whatever later snapshots hold.
\<close>

lemma esc_degraded_fails_fast:
  assumes "k < pollCalls ctx (5 * Second) timeout True"
    and "\<forall>j<k. fst (escCondition name (client j)
                      (lastObserved ''Ready'' client j, lastObserved ''Degraded'' client j)) = (False, None)"
    and "client k = Inr u"
    and "NestedSlice u [''status'', ''conditions''] = (conds, True, None)"
    and "lastObserved ''Ready'' client (Suc k) = Some r"
    and "lastObserved ''Degraded'' client (Suc k) = Some d"
    and "index d ''status'' = JStr ''True''"
  shows "WaitForExternalSecretsConfigReady ctx client name timeout
           = Some (Errorf (''ExternalSecretsConfig '' @ name @ '' is degraded: ''
                           @ fmt_v (index d ''message'')))
       \<and> snd (escPoll ctx client name timeout) = (Some r, Some d)"
proof -
  let ?L = "\<lambda>k. (lastObserved ''Ready'' client k, lastObserved ''Degraded'' client k)"
  have "fold escRecord conds (?L k) = ?L (Suc k)"
    using esc_step [of name client k] assms(3,4)
    by (simp add: escCondition_state conditionsOf_def)
  then have "fold escRecord conds (?L k) = (Some r, Some d)"
    using assms(5,6) by simp
  then have "escCondition name (client k) (?L k)
           = ((False, Some (Errorf (''ExternalSecretsConfig '' @ name @ '' is degraded: ''
                                    @ fmt_v (index d ''message'')))), (Some r, Some d))"
    using assms(3,4,7) by (intro escCondition_degraded) auto
  then have "escPoll ctx client name timeout
           = (Some (Errorf (''ExternalSecretsConfig '' @ name @ '' is degraded: ''
                                    @ fmt_v (index d ''message''))), ?L (Suc k))"
    using assms(1,2) by (intro escPoll_stops_at) auto
  then show ?thesis
    using assms(5,6) by (simp add: WaitForExternalSecretsConfigReady_def)
qed

lemma esc_degraded_fails_fast_example:
  "1 < pollCalls None (5 * Second) (60 * Second) True
   \<and> fst (escCondition ''cluster'' (readyThenDegraded 0)
             (lastObserved ''Ready'' readyThenDegraded 0,
              lastObserved ''Degraded'' readyThenDegraded 0)) = (False, None)
   \<and> readyThenDegraded 1
       = Inr (withConditions [conditionEntry ''Ready'' ''True'' ''reconciled'',
                              conditionEntry ''Degraded'' ''True'' ''operand failed''])
   \<and> NestedSlice (withConditions [conditionEntry ''Ready'' ''True'' ''reconciled'',
                                   conditionEntry ''Degraded'' ''True'' ''operand failed''])
        [''status'', ''conditions'']
       = ([conditionEntry ''Ready'' ''True'' ''reconciled'',
           conditionEntry ''Degraded'' ''True'' ''operand failed''], True, None)
   \<and> lastObserved ''Ready'' readyThenDegraded (Suc 1)
       = Some [(''type'', JStr ''Ready''), (''status'', JStr ''True''), (''message'', JStr ''reconciled'')]
   \<and> lastObserved ''Degraded'' readyThenDegraded (Suc 1)
       = Some [(''type'', JStr ''Degraded''), (''status'', JStr ''True''),
               (''message'', JStr ''operand failed'')]
   \<and> WaitForExternalSecretsConfigReady None readyThenDegraded ''cluster'' (60 * Second)
       = Some (Errorf ''ExternalSecretsConfig cluster is degraded: operand failed'')"
proof -
  have h1: "1 < pollCalls None (5 * Second) (60 * Second) True"
    by code_simp
  have h2: "\<forall>j<1. fst (escCondition ''cluster'' (readyThenDegraded j)
                    (lastObserved ''Ready'' readyThenDegraded j,
                     lastObserved ''Degraded'' readyThenDegraded j)) = (False, None)"
  proof (intro allI impI)
    fix j :: nat
    assume "j < 1"
    then have j: "j = 0" by simp
    show "fst (escCondition ''cluster'' (readyThenDegraded j)
                    (lastObserved ''Ready'' readyThenDegraded j,
                     lastObserved ''Degraded'' readyThenDegraded j)) = (False, None)"
      unfolding j by code_simp
  qed
  have h3: "readyThenDegraded 1
       = Inr (withConditions [conditionEntry ''Ready'' ''True'' ''reconciled'',
                              conditionEntry ''Degraded'' ''True'' ''operand failed''])"
    by (simp add: readyThenDegraded_def)
  have h4: "NestedSlice (withConditions [conditionEntry ''Ready'' ''True'' ''reconciled'',
                                   conditionEntry ''Degraded'' ''True'' ''operand failed''])
        [''status'', ''conditions'']
       = ([conditionEntry ''Ready'' ''True'' ''reconciled'',
           conditionEntry ''Degraded'' ''True'' ''operand failed''], True, None)"
    by code_simp
  have h5: "lastObserved ''Ready'' readyThenDegraded (Suc 1)
       = Some [(''type'', JStr ''Ready''), (''status'', JStr ''True''), (''message'', JStr ''reconciled'')]"
    by code_simp
  have h6: "lastObserved ''Degraded'' readyThenDegraded (Suc 1)
       = Some [(''type'', JStr ''Degraded''), (''status'', JStr ''True''),
               (''message'', JStr ''operand failed'')]"
    by code_simp
  have h7: "index [(''type'', JStr ''Degraded''), (''status'', JStr ''True''),
               (''message'', JStr ''operand failed'')] ''status'' = JStr ''True''"
    by (simp add: index_def)
  have "WaitForExternalSecretsConfigReady None readyThenDegraded ''cluster'' (60 * Second)
       = Some (Errorf ''ExternalSecretsConfig cluster is degraded: operand failed'')"
    using esc_degraded_fails_fast [OF h1 h2 h3 h4 h5 h6 h7]
    by (simp add: index_def)
  moreover have "fst (escCondition ''cluster'' (readyThenDegraded 0)
             (lastObserved ''Ready'' readyThenDegraded 0,
              lastObserved ''Degraded'' readyThenDegraded 0)) = (False, None)"
    using h2 by simp
  ultimately show ?thesis
    using h1 h3 h4 h5 h6 by blast
qed

text \<open>
  Claim C1. A resource reports only \<open>Degraded = True\<close> and never a \<open>Ready\<close> condition. The
  check that both conditions are present comes before the fail-fast check, so the
  probe keeps polling at the call that observes \<open>Degraded = True\<close>, and the wait ends
  only when the 60 seconds are over, with the timeout message instead of the degraded
  error that the documentation of the function promises ("Returns early with error if
  Degraded=True").
\<close>

theorem esc_degraded_without_ready_keeps_polling:
  "fst (escCondition ''cluster''
          (Inr (withConditions [conditionEntry ''Degraded'' ''True'' ''operand failed'']))
          (None, None)) = (False, None)
   \<and> WaitForExternalSecretsConfigReady None
       (\<lambda>k. Inr (withConditions [conditionEntry ''Degraded'' ''True'' ''operand failed'']))
       ''cluster'' (60 * Second)
     = Some (Errorf ''timeout waiting for ExternalSecretsConfig cluster to be ready: Ready=not set, Degraded=True (reason: <nil>, message: operand failed)'')"
  by code_simp

text \<open>
  Claim C2. \<open>WaitForExternalSecretsConfigReady\<close> returns nil only if at some call of the
  probe both a \<open>Ready\<close> and a \<open>Degraded\<close> condition have been observed (each in the
  snapshot of that call or of an earlier one), the last observed \<open>Ready\<close> has status
  \<open>True\<close> and the last observed \<open>Degraded\<close> has a status other than \<open>True\<close>. A resource
  that never reports a \<open>Degraded\<close> condition therefore never yields success.
\<close>

theorem esc_success_requires_both_observed:
  assumes "WaitForExternalSecretsConfigReady ctx client name timeout = None"
  shows "\<exists>k<pollCalls ctx (5 * Second) timeout True. \<exists>r d.
           snd (escPoll ctx client name timeout) = (Some r, Some d)
         \<and> lastObserved ''Ready'' client (Suc k) = Some r
         \<and> lastObserved ''Degraded'' client (Suc k) = Some d
         \<and> index r ''status'' = JStr ''True''
         \<and> index d ''status'' \<noteq> JStr ''True''
         \<and> (\<exists>i\<le>k. JMap r \<in> set (conditionsOf (client i)) \<and> index r ''type'' = JStr ''Ready'')
         \<and> (\<exists>j\<le>k. JMap d \<in> set (conditionsOf (client j)) \<and> index d ''type'' = JStr ''Degraded'')"
proof -
  let ?L = "\<lambda>k. (lastObserved ''Ready'' client k, lastObserved ''Degraded'' client k)"
  let ?n = "pollCalls ctx (5 * Second) timeout True"
  have poll: "fst (escPoll ctx client name timeout) = None"
    using assms
    by (auto simp: WaitForExternalSecretsConfigReady_def Let_def split: prod.splits option.splits if_splits)
  from escPoll_cases [of ctx client name timeout] poll
  obtain k where k: "k < ?n"
    and stop: "fst (escCondition name (client k) (?L k)) \<noteq> (False, None)"
    and res: "escPoll ctx client name timeout = (snd (fst (escCondition name (client k) (?L k))), ?L (Suc k))"
    by auto
  have "snd (fst (escCondition name (client k) (?L k))) = None"
    using poll res by simp
  with stop have "fst (escCondition name (client k) (?L k)) = (True, None)"
    by (cases "fst (escCondition name (client k) (?L k))") auto
  from escCondition_done [OF this] esc_step [of name client k]
  obtain r d where rd: "lastObserved ''Ready'' client (Suc k) = Some r"
      "lastObserved ''Degraded'' client (Suc k) = Some d"
      "index r ''status'' = JStr ''True''" "index d ''status'' \<noteq> JStr ''True''"
    by auto
  from lastObserved_SomeD [OF rd(1)] lastObserved_SomeD [OF rd(2)]
  have "\<exists>i\<le>k. JMap r \<in> set (conditionsOf (client i)) \<and> index r ''type'' = JStr ''Ready''"
    and "\<exists>j\<le>k. JMap d \<in> set (conditionsOf (client j)) \<and> index d ''type'' = JStr ''Degraded''"
    by (auto simp: less_Suc_eq_le)
  moreover have "snd (escPoll ctx client name timeout) = (Some r, Some d)"
    using res rd by simp
  ultimately show ?thesis
    using k rd by blast
qed

theorem esc_success_requires_both_observed_witness:
  "WaitForExternalSecretsConfigReady None converging ''cluster'' (60 * Second) = None
   \<and> (\<exists>k<pollCalls None (5 * Second) (60 * Second) True. \<exists>r d.
           snd (escPoll None converging ''cluster'' (60 * Second)) = (Some r, Some d)
         \<and> lastObserved ''Ready'' converging (Suc k) = Some r
         \<and> lastObserved ''Degraded'' converging (Suc k) = Some d
         \<and> index r ''status'' = JStr ''True''
         \<and> index d ''status'' \<noteq> JStr ''True''
         \<and> (\<exists>i\<le>k. JMap r \<in> set (conditionsOf (converging i)) \<and> index r ''type'' = JStr ''Ready'')
         \<and> (\<exists>j\<le>k. JMap d \<in> set (conditionsOf (converging j)) \<and> index d ''type'' = JStr ''Degraded''))"
proof -
  have h: "WaitForExternalSecretsConfigReady None converging ''cluster'' (60 * Second) = None"
    by code_simp
  from esc_success_requires_both_observed [OF h] h show ?thesis by blast
qed

text \<open>
  Claim C7. When the poller reports that the deadline was exceeded, the returned error
  is the timeout message with, for \<open>Ready\<close> and for \<open>Degraded\<close>, the status, reason and
  message of the last condition of that type observed during the wait, or "not set"
  when none was observed.
\<close>

theorem esc_timeout_reports_last_observed:
  assumes "fst (escPoll ctx client name timeout) = Some DeadlineExceeded"
  shows "WaitForExternalSecretsConfigReady ctx client name timeout
         = Some (Errorf (''timeout waiting for ExternalSecretsConfig '' @ name @ '' to be ready: Ready=''
              @ (case lastObserved ''Ready'' client (pollCalls ctx (5 * Second) timeout True) of
                   None \<Rightarrow> ''not set''
                 | Some c \<Rightarrow> fmt_v (index c ''status'') @ '' (reason: '' @ fmt_v (index c ''reason'')
                             @ '', message: '' @ fmt_v (index c ''message'') @ '')'')
              @ '', Degraded=''
              @ (case lastObserved ''Degraded'' client (pollCalls ctx (5 * Second) timeout True) of
                   None \<Rightarrow> ''not set''
                 | Some c \<Rightarrow> fmt_v (index c ''status'') @ '' (reason: '' @ fmt_v (index c ''reason'')
                             @ '', message: '' @ fmt_v (index c ''message'') @ '')'')))"
proof -
  let ?L = "\<lambda>k. (lastObserved ''Ready'' client k, lastObserved ''Degraded'' client k)"
  let ?n = "pollCalls ctx (5 * Second) timeout True"
  have "escPoll ctx client name timeout = (Some DeadlineExceeded, ?L ?n)"
    using escPoll_cases [of ctx client name timeout]
  proof
    assume "escPoll ctx client name timeout = (Some (ctxErr ctx timeout), ?L ?n)
          \<and> (\<forall>j<?n. fst (escCondition name (client j) (?L j)) = (False, None))"
    with assms show ?thesis by simp
  next
    assume "\<exists>k<?n. (\<forall>j<k. fst (escCondition name (client j) (?L j)) = (False, None))
             \<and> fst (escCondition name (client k) (?L k)) \<noteq> (False, None)
             \<and> escPoll ctx client name timeout
                = (snd (fst (escCondition name (client k) (?L k))), ?L (Suc k))"
    then obtain k where
      res: "escPoll ctx client name timeout = (snd (fst (escCondition name (client k) (?L k))), ?L (Suc k))"
      by blast
    with assms have "snd (fst (escCondition name (client k) (?L k))) = Some DeadlineExceeded"
      by simp
    then have "fst (escCondition name (client k) (?L k))
                 = (fst (fst (escCondition name (client k) (?L k))), Some DeadlineExceeded)"
      by (metis prod.collapse)
    from escCondition_error [OF this] show ?thesis by simp
  qed
  then show ?thesis
    by (simp add: WaitForExternalSecretsConfigReady_def Let_def)
qed

theorem esc_timeout_reports_last_observed_witness:
  "fst (escPoll None converging ''cluster'' (15 * Second)) = Some DeadlineExceeded
   \<and> WaitForExternalSecretsConfigReady None converging ''cluster'' (15 * Second)
     = Some (Errorf ''timeout waiting for ExternalSecretsConfig cluster to be ready: Ready=False (reason: <nil>, message: deploying), Degraded=False (reason: <nil>, message: healthy)'')"
proof -
  have h: "fst (escPoll None converging ''cluster'' (15 * Second)) = Some DeadlineExceeded"
    by code_simp
  have r: "lastObserved ''Ready'' converging (pollCalls None (5 * Second) (15 * Second) True)
             = Some [(''type'', JStr ''Ready''), (''status'', JStr ''False''), (''message'', JStr ''deploying'')]"
    by code_simp
  have d: "lastObserved ''Degraded'' converging (pollCalls None (5 * Second) (15 * Second) True)
             = Some [(''type'', JStr ''Degraded''), (''status'', JStr ''False''), (''message'', JStr ''healthy'')]"
    by code_simp
  from esc_timeout_reports_last_observed [OF h] h show ?thesis
    unfolding r d by (simp add: index_def)
qed

text \<open>
  Claim C8. On the snapshots (no conditions), \<open>{Ready: Unknown}\<close>,
  \<open>{Ready: False, Degraded: False}\<close>, \<open>{Ready: True, Degraded: False}\<close> the probe keeps
  polling at the first three calls and reports done at the fourth: the wait succeeds,
  and with a deadline that allows three calls only it times out.
\<close>

theorem esc_converging_scenario:
  "escCondition name (converging 0) (None, None) = ((False, None), (None, None))
   \<and> escCondition name (converging 1) (None, None)
       = ((False, None),
          (Some [(''type'', JStr ''Ready''), (''status'', JStr ''Unknown''), (''message'', JStr ''starting'')],
           None))
   \<and> escCondition name (converging 2)
        (Some [(''type'', JStr ''Ready''), (''status'', JStr ''Unknown''), (''message'', JStr ''starting'')],
         None)
       = ((False, None),
          (Some [(''type'', JStr ''Ready''), (''status'', JStr ''False''), (''message'', JStr ''deploying'')],
           Some [(''type'', JStr ''Degraded''), (''status'', JStr ''False''), (''message'', JStr ''healthy'')]))
   \<and> escCondition name (converging 3)
        (Some [(''type'', JStr ''Ready''), (''status'', JStr ''False''), (''message'', JStr ''deploying'')],
         Some [(''type'', JStr ''Degraded''), (''status'', JStr ''False''), (''message'', JStr ''healthy'')])
       = ((True, None),
          (Some [(''type'', JStr ''Ready''), (''status'', JStr ''True''), (''message'', JStr ''reconciled'')],
           Some [(''type'', JStr ''Degraded''), (''status'', JStr ''False''), (''message'', JStr ''healthy'')]))
   \<and> WaitForExternalSecretsConfigReady None converging name (60 * Second) = None
   \<and> fst (escPoll None converging name (15 * Second)) = Some DeadlineExceeded"
  by code_simp

text \<open>
  Claim C5. The context is cancelled 7 seconds into a wait with a timeout of 60 seconds,
  while the resource does not exist. \<open>WaitForExternalSecretsConfigReady\<close> returns its
  timeout message, where \<open>WaitForESOResourceReady\<close> returns the cancellation cause.
\<close>

theorem esc_cancellation_reported_as_timeout:
  "WaitForExternalSecretsConfigReady (Some (7 * Second)) (\<lambda>k. Inl (ApiError ''not found''))
     ''cluster'' (60 * Second)
   = Some (Errorf ''timeout waiting for ExternalSecretsConfig cluster to be ready: Ready=not set, Degraded=not set'')
   \<and> fst (WaitForESOResourceReady (Some (7 * Second)) (\<lambda>k. Inl (ApiError ''not found''))
            ''ns'' ''store'' (60 * Second)) = Some Canceled"
  by code_simp

section \<open>The multi-pod wait\<close>

text \<open>
  Claim C3. Two running, ready pods match the prefix \<open>a\<close> and no pod matches the prefix
  \<open>b\<close>: the number of matched pods equals the number of prefixes, and the probe reports
  done.
\<close>

theorem verify_pods_counts_pods_not_prefixes:
  "\<not> list_ex (\<lambda>pod. HasPrefix (Name pod) ''b'') [runningPod ''a-1'', runningPod ''a-2'']
   \<and> verifyPodsCondition [''a'', ''b''] (Inr [runningPod ''a-1'', runningPod ''a-2'']) = (True, None)
   \<and> VerifyPodsReadyByPrefix None (\<lambda>namespace k. Inr [runningPod ''a-1'', runningPod ''a-2''])
       ''external-secrets'' [''a'', ''b''] = None"
  by code_simp

theorem verify_pods_counts_pods_not_prefixes_witness:
  "VerifyPodsReadyByPrefix None (\<lambda>namespace k. Inr [runningPod ''a-1'', runningPod ''a-2''])
       ''external-secrets'' [''a'', ''b''] = None"
  using verify_pods_counts_pods_not_prefixes by simp

section \<open>The single-condition wait\<close>

lemma esoConditionsLoop_done:
  "fst (esoConditionsLoop namespace name conds out)
     \<longleftrightarrow> list_ex (\<lambda>c. case c of
                     JMap cond \<Rightarrow> index cond ''type'' = JStr ''Ready''
                                  \<and> index cond ''status'' = JStr ''True''
                   | _ \<Rightarrow> False) conds"
  by (induction namespace name conds out rule: esoConditionsLoop.induct)
     (simp_all add: Let_def)

lemma esoCondition_result:
  "fst (esoCondition namespace name got out) = (showsReadyTrue got, None)"
proof (cases got)
  case (Inl e)
  then show ?thesis
    by (simp add: esoCondition_def showsReadyTrue_def conditionsOf_def)
next
  case (Inr u)
  obtain conds found err where ns: "NestedSlice u [''status'', ''conditions''] = (conds, found, err)"
    by (cases "NestedSlice u [''status'', ''conditions'']") auto
  show ?thesis
    using esoConditionsLoop_done [of namespace name conds out]
    by (cases "esoConditionsLoop namespace name conds out")
       (auto simp: esoCondition_def showsReadyTrue_def conditionsOf_def Inr ns)
qed

lemma loop_stateless_result:
  assumes "\<And>i s. fst (c i s) = (p i, None)"
  shows "fst (loopConditionUntilContext e c is s) = (if \<exists>i\<in>set is. p i then None else Some e)"
proof (induction "is" arbitrary: s)
  case Nil
  then show ?case by simp
next
  case (Cons i "is")
  obtain s' where "c i s = ((p i, None), s')"
    using assms [of i s] by (cases "c i s") auto
  then show ?case
    using Cons.IH [of s'] by simp
qed

lemma eso_wait_result:
  "fst (WaitForESOResourceReady ctx client namespace name timeout)
     = (if \<exists>k<pollCalls ctx (5 * Second) timeout True. showsReadyTrue (client k) then None
        else Some (ctxErr ctx timeout))"
  unfolding WaitForESOResourceReady_def PollUntilContextTimeout_def
  by (subst loop_stateless_result [where p = "\<lambda>k. showsReadyTrue (client k)"])
     (auto simp: esoCondition_result)

text \<open>
  Claim C6. The probe of \<open>WaitForESOResourceReady\<close> never returns an error, and reports
  done exactly when the fetched snapshot shows a \<open>Ready\<close> condition with status \<open>True\<close>: a
  failed fetch, an absent conditions field, an absent \<open>Ready\<close> condition and a \<open>Ready\<close>
  condition with another status all mean "retry". The wait returns nil exactly when
  some call of the probe before the context is done observes \<open>Ready = True\<close>; so a fetch
  that fails \<open>N\<close> times and then shows \<open>Ready = True\<close>, with \<open>N * interval < timeout\<close>,
  yields success.
\<close>

theorem eso_wait_transient_until_ready:
  "fst (esoCondition namespace name got out) = (showsReadyTrue got, None)
   \<and> (fst (WaitForESOResourceReady ctx client namespace name timeout) = None
        \<longleftrightarrow> (\<exists>k<pollCalls ctx (5 * Second) timeout True. showsReadyTrue (client k)))
   \<and> ((\<forall>k<N. isl (client k)) \<and> showsReadyTrue (client N) \<and> int N * (5 * Second) < timeout
        \<longrightarrow> fst (WaitForESOResourceReady None client namespace name timeout) = None)"
proof -
  have "N < pollCalls None (5 * Second) timeout True" if "int N * (5 * Second) < timeout"
    using that pollCalls_immediate [of "5 * Second" N None timeout]
    by (simp add: Second_def ctxDone_def)
  then show ?thesis
    by (auto simp: esoCondition_result eso_wait_result)
qed

theorem eso_wait_transient_until_ready_witness:
  "isl (notFoundThenReady 0) \<and> isl (notFoundThenReady 1) \<and> isl (notFoundThenReady 2)
   \<and> showsReadyTrue (notFoundThenReady 3)
   \<and> int 3 * (5 * Second) < 60 * Second
   \<and> fst (WaitForESOResourceReady None notFoundThenReady ''ns'' ''store'' (60 * Second)) = None"
proof -
  have h1: "\<forall>k<3. isl (notFoundThenReady k)"
    by (simp add: notFoundThenReady_def)
  have h2: "showsReadyTrue (notFoundThenReady 3)"
    by code_simp
  have h3: "int 3 * (5 * Second) < 60 * Second"
    by (simp add: Second_def)
  from eso_wait_transient_until_ready [of "''ns''" "''store''" _ _ None notFoundThenReady "60 * Second" 3]
  have "fst (WaitForESOResourceReady None notFoundThenReady ''ns'' ''store'' (60 * Second)) = None"
    using h1 h2 h3 by blast
  with h1 h2 h3 show ?thesis by simp
qed

section \<open>Malformed condition entries\<close>

lemma esoConditionsLoop_filter:
  "esoConditionsLoop namespace name (filter isMapEntry conds) out
     = esoConditionsLoop namespace name conds out"
  by (induction namespace name conds out rule: esoConditionsLoop.induct)
     (simp_all add: isMapEntry_def Let_def)

lemma escRecord_filter:
  "fold escRecord (filter isMapEntry conds) st = fold escRecord conds st"
proof (induction conds arbitrary: st)
  case Nil
  then show ?case by simp
next
  case (Cons c conds)
  then show ?case
    by (cases c; cases st) (simp_all add: isMapEntry_def)
qed

text \<open>
  Claim C9. In both waiters a condition entry that is not a string-keyed map is skipped
  and the loop goes on with the remaining entries: on a snapshot with malformed entries
  the probe returns what it returns on the snapshot without them (same result, same
  state), so such an entry alone never makes the wait fail.
\<close>

theorem malformed_condition_entries_skipped:
  assumes "NestedSlice u [''status'', ''conditions''] = (conds, True, None)"
    and "NestedSlice u' [''status'', ''conditions''] = (filter isMapEntry conds, True, None)"
  shows "esoCondition namespace name (Inr u) out = esoCondition namespace name (Inr u') out
       \<and> escCondition name (Inr u) st = escCondition name (Inr u') st"
  using assms
  by (simp add: esoCondition_def escCondition_def esoConditionsLoop_filter escRecord_filter)

theorem malformed_condition_entries_skipped_witness:
  "NestedSlice (withConditions [JStr ''junk'', conditionEntry ''Ready'' ''True'' ''reconciled'', JInt 3])
     [''status'', ''conditions'']
     = ([JStr ''junk'', conditionEntry ''Ready'' ''True'' ''reconciled'', JInt 3], True, None)
   \<and> NestedSlice (withConditions [conditionEntry ''Ready'' ''True'' ''reconciled''])
       [''status'', ''conditions'']
     = (filter isMapEntry [JStr ''junk'', conditionEntry ''Ready'' ''True'' ''reconciled'', JInt 3],
        True, None)
   \<and> esoCondition ''ns'' ''cluster''
        (Inr (withConditions [JStr ''junk'', conditionEntry ''Ready'' ''True'' ''reconciled'', JInt 3])) []
     = ((True, None), [])
   \<and> escCondition ''cluster''
        (Inr (withConditions [JStr ''junk'', conditionEntry ''Ready'' ''True'' ''reconciled'', JInt 3]))
        (None, None)
     = ((False, None),
        (Some [(''type'', JStr ''Ready''), (''status'', JStr ''True''), (''message'', JStr ''reconciled'')],
         None))"
proof -
  have h1: "NestedSlice (withConditions [JStr ''junk'', conditionEntry ''Ready'' ''True'' ''reconciled'', JInt 3])
     [''status'', ''conditions'']
     = ([JStr ''junk'', conditionEntry ''Ready'' ''True'' ''reconciled'', JInt 3], True, None)"
    by code_simp
  have h2: "NestedSlice (withConditions [conditionEntry ''Ready'' ''True'' ''reconciled''])
       [''status'', ''conditions'']
     = (filter isMapEntry [JStr ''junk'', conditionEntry ''Ready'' ''True'' ''reconciled'', JInt 3],
        True, None)"
    by code_simp
  have e1: "esoCondition ''ns'' ''cluster''
        (Inr (withConditions [conditionEntry ''Ready'' ''True'' ''reconciled''])) []
     = ((True, None), [])"
    by code_simp
  have e2: "escCondition ''cluster''
        (Inr (withConditions [conditionEntry ''Ready'' ''True'' ''reconciled'']))
        (None, None)
     = ((False, None),
        (Some [(''type'', JStr ''Ready''), (''status'', JStr ''True''), (''message'', JStr ''reconciled'')],
         None))"
    by code_simp
  from malformed_condition_entries_skipped
         [OF h1 h2, where namespace = "''ns''" and name = "''cluster''" and out = "[]"
                      and st = "(None, None)"]
  show ?thesis using h1 h2 e1 e2 by simp
qed

section \<open>Fetch and list failures\<close>

lemma esoCondition_failure: "esoCondition namespace name (Inl e) out = ((False, None), out)"
  by (simp add: esoCondition_def)

lemma escCondition_failure: "escCondition name (Inl e) st = ((False, None), st)"
  by (simp add: escCondition_def)

lemma verifyPods_stops_at:
  assumes "k < pollCalls ctx (5 * Second) (2 * Minute) True"
    and "\<forall>j<k. verifyPodsCondition pfxs (clientset namespace j) = (False, None)"
    and "verifyPodsCondition pfxs (clientset namespace k) = (ok, err)"
    and "err \<noteq> None \<or> ok"
  shows "VerifyPodsReadyByPrefix ctx clientset namespace pfxs = err"
proof -
  let ?c = "\<lambda>k (s::unit). (verifyPodsCondition pfxs (clientset namespace k), s)"
  let ?n = "pollCalls ctx (5 * Second) (2 * Minute) True"
  have "loopConditionUntilContext (ctxErr ctx (2 * Minute)) ?c [0 ..< ?n] ()
          = (err, pollState ?c (take (Suc k) [0 ..< ?n]) ())"
  proof (rule loop_stops_at [where ok = ok])
    show "k < length [0 ..< ?n]" using assms(1) by simp
    show "fst (?c ([0 ..< ?n] ! j) (pollState ?c (take j [0 ..< ?n]) ())) = (False, None)"
      if "j < k" for j
      using that assms(1,2) by simp
    show "fst (?c ([0 ..< ?n] ! k) (pollState ?c (take k [0 ..< ?n]) ())) = (ok, err)"
      using assms(1,3) by simp
    show "err \<noteq> None \<or> ok" by (rule assms(4))
  qed
  then show ?thesis
    by (simp add: VerifyPodsReadyByPrefix_def PollUntilContextTimeout_def)
qed

text \<open>
  Claim C4, as the code has it. In \<open>WaitForESOResourceReady\<close> and
  \<open>WaitForExternalSecretsConfigReady\<close> a failed fetch is transient: the probe reports
  "not done" with no error and leaves its state as it was, and the outcome of the wait
  does not depend on the error a failed fetch returned. In \<open>VerifyPodsReadyByPrefix\<close>
  the probe returns the error of a failed \<open>List\<close>, and the wait ends at that call with
  that error.
\<close>

theorem fetch_failure_transient_list_failure_fatal:
  assumes "\<forall>k. client' k = client k \<or> (isl (client k) \<and> isl (client' k))"
    and "k < pollCalls ctx (5 * Second) (2 * Minute) True"
    and "\<forall>j<k. verifyPodsCondition pfxs (clientset namespace j) = (False, None)"
    and "clientset namespace k = Inl e"
  shows "esoCondition namespace name (Inl e) out = ((False, None), out)
       \<and> escCondition name (Inl e) st = ((False, None), st)
       \<and> WaitForESOResourceReady ctx client' namespace name timeout
           = WaitForESOResourceReady ctx client namespace name timeout
       \<and> WaitForExternalSecretsConfigReady ctx client' name timeout
           = WaitForExternalSecretsConfigReady ctx client name timeout
       \<and> verifyPodsCondition pfxs (Inl e) = (False, Some e)
       \<and> VerifyPodsReadyByPrefix ctx clientset namespace pfxs = Some e"
proof -
  have eso: "esoCondition namespace name (client' j) s = esoCondition namespace name (client j) s" for j s
    using assms(1) [rule_format, of j]
    by (cases "client j"; cases "client' j") (auto simp: esoCondition_failure)
  have esc: "escCondition name (client' j) s = escCondition name (client j) s" for j s
    using assms(1) [rule_format, of j]
    by (cases "client j"; cases "client' j") (auto simp: escCondition_failure)
  have pods: "verifyPodsCondition pfxs (Inl e) = (False, Some e)"
    by (simp add: verifyPodsCondition_def)
  have "VerifyPodsReadyByPrefix ctx clientset namespace pfxs = Some e"
    using assms(2,3) by (rule verifyPods_stops_at [where ok = False]) (simp_all add: assms(4) pods)
  then show ?thesis
    by (simp add: esoCondition_failure escCondition_failure pods eso esc
          WaitForESOResourceReady_def WaitForExternalSecretsConfigReady_def escPoll_def)
qed

theorem fetch_failure_transient_list_failure_fatal_witness:
  "(\<forall>k. refusedThenReady k = notFoundThenReady k
         \<or> (isl (notFoundThenReady k) \<and> isl (refusedThenReady k)))
   \<and> 1 < pollCalls None (5 * Second) (2 * Minute) True
   \<and> verifyPodsCondition [''a''] (listRefusedOnce ''ns'' 0) = (False, None)
   \<and> listRefusedOnce ''ns'' 1 = Inl (ApiError ''connection refused'')
   \<and> WaitForESOResourceReady None refusedThenReady ''ns'' ''store'' (60 * Second)
       = WaitForESOResourceReady None notFoundThenReady ''ns'' ''store'' (60 * Second)
   \<and> WaitForExternalSecretsConfigReady None refusedThenReady ''store'' (60 * Second)
       = WaitForExternalSecretsConfigReady None notFoundThenReady ''store'' (60 * Second)
   \<and> VerifyPodsReadyByPrefix None listRefusedOnce ''ns'' [''a''] = Some (ApiError ''connection refused'')"
proof -
  have h1: "\<forall>k. refusedThenReady k = notFoundThenReady k
         \<or> (isl (notFoundThenReady k) \<and> isl (refusedThenReady k))"
    by (simp add: refusedThenReady_def notFoundThenReady_def)
  have h2: "1 < pollCalls None (5 * Second) (2 * Minute) True"
    by code_simp
  have h3: "\<forall>j<1. verifyPodsCondition [''a''] (listRefusedOnce ''ns'' j) = (False, None)"
    by (simp add: listRefusedOnce_def verifyPodsCondition_def matchPods_def)
  have h4: "listRefusedOnce ''ns'' 1 = Inl (ApiError ''connection refused'')"
    by (simp add: listRefusedOnce_def)
  from fetch_failure_transient_list_failure_fatal
         [where client' = refusedThenReady and client = notFoundThenReady and k = 1
            and ctx = None and pfxs = "[''a'']" and clientset = listRefusedOnce
            and namespace = "''ns''" and e = "ApiError ''connection refused''"
            and name = "''store''" and timeout = "60 * Second", OF h1 h2 h3 h4]
  show ?thesis
    using h1 h2 h3 h4 by simp
qed

text \<open>
  Claim C4 as stated fails for \<open>VerifyPodsReadyByPrefix\<close>: a \<open>List\<close> that fails at the
  first call ends the wait with the list error, long before the two minutes are over
  and although the pod is ready from the second call on.
\<close>

theorem list_failure_ends_wait_counterexample:
  "verifyPodsCondition [''a''] (Inl (ApiError ''connection refused''))
     = (False, Some (ApiError ''connection refused''))
   \<and> VerifyPodsReadyByPrefix None
       (\<lambda>namespace k. if k = 0 then Inl (ApiError ''connection refused'')
                       else Inr [runningPod ''a-1''])
       ''ns'' [''a'']
     = Some (ApiError ''connection refused'')"
  by code_simp

section \<open>Pod health\<close>

lemma ready_fold:
  "m k \<noteq> None \<Longrightarrow>
   fold (\<lambda>cond ready. if ready (Type cond) \<noteq> None \<and> Status cond = ConditionTrue
                        then ready(Type cond \<mapsto> True) else ready) conds m k = Some True
   \<longleftrightarrow> m k = Some True \<or> (\<exists>c\<in>set conds. Type c = k \<and> Status c = ConditionTrue)"
proof (induction conds arbitrary: m)
  case Nil
  then show ?case by simp
next
  case (Cons c conds)
  let ?m' = "if m (Type c) \<noteq> None \<and> Status c = ConditionTrue then m(Type c \<mapsto> True) else m"
  have dom: "?m' k \<noteq> None" using Cons.prems by auto
  have step: "?m' k = Some True \<longleftrightarrow> m k = Some True \<or> (Type c = k \<and> Status c = ConditionTrue)"
    using Cons.prems by auto
  have "fold (\<lambda>cond ready. if ready (Type cond) \<noteq> None \<and> Status cond = ConditionTrue
                        then ready(Type cond \<mapsto> True) else ready) conds ?m' k = Some True
        \<longleftrightarrow> ?m' k = Some True \<or> (\<exists>c\<in>set conds. Type c = k \<and> Status c = ConditionTrue)"
    using dom by (rule Cons.IH [of ?m'])
  with step show ?case
    by (simp del: fun_upd_apply)
qed

lemma isPodReady_iff:
  "isPodReady pod \<longleftrightarrow>
     (\<exists>c\<in>set (Conditions pod). Type c = ''Ready'' \<and> Status c = ''True'')
   \<and> (\<exists>c\<in>set (Conditions pod). Type c = ''ContainersReady'' \<and> Status c = ''True'')"
  unfolding isPodReady_def Let_def
  by (subst ready_fold, simp, subst ready_fold, simp) (simp add: ConditionTrue_def)

lemma unhealthy_matched_not_done:
  assumes "(n, pod) \<in> set (matchPods pfxs items)"
    and "Phase pod \<noteq> PodRunning \<or> \<not> isPodReady pod"
  shows "verifyPodsCondition pfxs (Inr items) = (False, None)"
  using assms unfolding verifyPodsCondition_def Let_def list_ex_iff
  by auto

text \<open>
  Claim C10. The health test that \<open>VerifyPodsReadyByPrefix\<close> applies to a matched pod
  (phase \<open>Running\<close> and \<open>isPodReady\<close>) holds exactly when the pod's phase is \<open>Running\<close> and
  its condition list has a \<open>Ready\<close> entry with status \<open>True\<close> and a \<open>ContainersReady\<close> entry
  with status \<open>True\<close>. Whenever a matched pod fails the test, for whichever reason, the
  probe answers "not done" with no error: the wait retries.
\<close>

theorem pod_health_predicate:
  "((Phase pod = PodRunning \<and> isPodReady pod) \<longleftrightarrow>
      Phase pod = ''Running''
      \<and> (\<exists>c\<in>set (Conditions pod). Type c = ''Ready'' \<and> Status c = ''True'')
      \<and> (\<exists>c\<in>set (Conditions pod). Type c = ''ContainersReady'' \<and> Status c = ''True''))
   \<and> (\<forall>pfxs items n.
        (n, pod) \<in> set (matchPods pfxs items) \<and> \<not> (Phase pod = PodRunning \<and> isPodReady pod)
        \<longrightarrow> verifyPodsCondition pfxs (Inr items) = (False, None))"
  using isPodReady_iff [of pod] unhealthy_matched_not_done [of _ pod]
  by (auto simp: PodRunning_def)

theorem pod_health_predicate_witness:
  "(''a-1'', \<lparr>Name = ''a-1'', Phase = ''Pending'',
              Conditions = [\<lparr>Type = ''Ready'', Status = ''False''\<rparr>]\<rparr>)
     \<in> set (matchPods [''a''] [\<lparr>Name = ''a-1'', Phase = ''Pending'',
                                 Conditions = [\<lparr>Type = ''Ready'', Status = ''False''\<rparr>]\<rparr>])
   \<and> \<not> (Phase \<lparr>Name = ''a-1'', Phase = ''Pending'',
                 Conditions = [\<lparr>Type = ''Ready'', Status = ''False''\<rparr>]\<rparr> = PodRunning
         \<and> isPodReady \<lparr>Name = ''a-1'', Phase = ''Pending'',
                        Conditions = [\<lparr>Type = ''Ready'', Status = ''False''\<rparr>]\<rparr>)
   \<and> verifyPodsCondition [''a'']
        (Inr [\<lparr>Name = ''a-1'', Phase = ''Pending'',
               Conditions = [\<lparr>Type = ''Ready'', Status = ''False''\<rparr>]\<rparr>]) = (False, None)"
  using pod_health_predicate
    [of "\<lparr>Name = ''a-1'', Phase = ''Pending'', Conditions = [\<lparr>Type = ''Ready'', Status = ''False''\<rparr>]\<rparr>"]
  by (simp add: matchPods_def HasPrefix_def PodRunning_def)

end
